theory Spec2Isabelle
  imports Complex_Main
begin

section \<open>JavaScript values used by the logger\<close>

text \<open>
  A JavaScript Number is \<open>NaN\<close>, one of the two infinities, or a finite value. A finite
  value is represented by its mathematical value; every binary64 value is such a rational,
  and the operations the logger applies to numbers (the comparison \<open>a > b\<close>, \<open>Number.isInteger\<close>, the
  SameValueZero test of \<open>Set.prototype.has\<close>) are exact on them. Negative zero is
  identified with zero, which none of these operations tells apart.
\<close>

datatype jsnum = NaN | PosInf | NegInf | Fin rat

text \<open>The primitive values that reach \<open>Number(...)\<close>; objects are outside the model.\<close>

datatype jsval =
    JUndefined
  | JNull
  | JBool bool
  | JNum jsnum
  | JStr string
  | JSymbol string

text \<open>
  Exceptions: the \<open>Error('Invalid loglevel provided!')\<close> of the setter, the
  \<open>TypeError\<close> of \<open>Number(symbol)\<close>, and whatever a destination's \<open>write\<close> throws.
\<close>

datatype error = InvalidLoglevel | TypeError | WriteError

text \<open>The relational operator \<open>a > b\<close> on two Numbers: false as soon as one is \<open>NaN\<close>.\<close>

fun js_gt :: "jsnum \<Rightarrow> jsnum \<Rightarrow> bool" where
  "js_gt NaN _ = False"
| "js_gt _ NaN = False"
| "js_gt (Fin a) (Fin b) = (b < a)"
| "js_gt (Fin _) PosInf = False"
| "js_gt (Fin _) NegInf = True"
| "js_gt PosInf PosInf = False"
| "js_gt PosInf _ = True"
| "js_gt NegInf _ = False"

text \<open>\<open>a <= b\<close> on two Numbers (used only to state properties; the code tests only \<open>a > b\<close>).\<close>

fun js_le :: "jsnum \<Rightarrow> jsnum \<Rightarrow> bool" where
  "js_le NaN _ = False"
| "js_le _ NaN = False"
| "js_le (Fin a) (Fin b) = (a \<le> b)"
| "js_le (Fin _) PosInf = True"
| "js_le (Fin _) NegInf = False"
| "js_le PosInf PosInf = True"
| "js_le PosInf _ = False"
| "js_le NegInf _ = True"

fun js_neg :: "jsnum \<Rightarrow> jsnum" where
  "js_neg NaN = NaN"
| "js_neg PosInf = NegInf"
| "js_neg NegInf = PosInf"
| "js_neg (Fin q) = Fin (- q)"

text \<open>\<open>Number.isInteger\<close>: a finite Number without fractional part.\<close>

fun Number_isInteger :: "jsnum \<Rightarrow> bool" where
  "Number_isInteger (Fin q) = (of_int \<lfloor>q\<rfloor> = q)"
| "Number_isInteger _ = False"

subsection \<open>Strings\<close>

text \<open>
  Strings are lists of ASCII code units. \<open>String.prototype.toLowerCase\<close> maps the
  letters A to Z to a to z and leaves every other ASCII character alone.
\<close>

definition toLowerCase_char :: "char \<Rightarrow> char" where
  "toLowerCase_char c =
     (case map_of (zip ''ABCDEFGHIJKLMNOPQRSTUVWXYZ'' ''abcdefghijklmnopqrstuvwxyz'') c of
        Some d \<Rightarrow> d
      | None \<Rightarrow> c)"

definition toLowerCase :: "string \<Rightarrow> string" where
  "toLowerCase s = map toLowerCase_char s"

definition LF :: char where
  "LF = CHR 0x0A"

definition CR :: char where
  "CR = CHR 0x0D"

subsection \<open>Number(value)\<close>

text \<open>
  \<open>Number(v)\<close> is ECMAScript's ToNumber. On a string it is StringToNumber: the string is
  trimmed of white space, the empty string is 0, a string that is no StringNumericLiteral
  is \<open>NaN\<close>. The value of a literal is its mathematical value: the rounding to binary64,
  which changes the value only of literals that no binary64 value equals, is left out.
\<close>

definition StrWhiteSpaceChar :: "char \<Rightarrow> bool" where
  "StrWhiteSpaceChar c \<longleftrightarrow>
     c \<in> set [CHR 0x09, CHR 0x0A, CHR 0x0B, CHR 0x0C, CHR 0x0D, CHR 0x20]"

definition trim :: "string \<Rightarrow> string" where
  "trim s = rev (dropWhile StrWhiteSpaceChar (rev (dropWhile StrWhiteSpaceChar s)))"

definition digit_of :: "nat \<Rightarrow> char \<Rightarrow> nat option" where
  "digit_of radix c =
     (case map_of (zip ''0123456789abcdef'' [0, 1, 2, 3, 4, 5, 6, 7, 8, 9, 10, 11, 12, 13, 14, 15])
             (toLowerCase_char c) of
        Some d \<Rightarrow> if d < radix then Some d else None
      | None \<Rightarrow> None)"

fun parse_digits :: "nat \<Rightarrow> nat \<Rightarrow> string \<Rightarrow> nat option" where
  "parse_digits radix acc [] = Some acc"
| "parse_digits radix acc (c # cs) =
     (case digit_of radix c of
        None \<Rightarrow> None
      | Some d \<Rightarrow> parse_digits radix (acc * radix + d) cs)"

text \<open>One or more digits of the radix, and nothing else.\<close>

definition Digits :: "nat \<Rightarrow> string \<Rightarrow> nat option" where
  "Digits radix s = (if s = [] then None else parse_digits radix 0 s)"

definition DecimalDigit :: "char \<Rightarrow> bool" where
  "DecimalDigit c \<longleftrightarrow> digit_of 10 c \<noteq> None"

definition starts_with :: "char \<Rightarrow> string \<Rightarrow> bool" where
  "starts_with c s \<longleftrightarrow> (case s of [] \<Rightarrow> False | d # _ \<Rightarrow> d = c)"

definition SignedInteger :: "string \<Rightarrow> int option" where
  "SignedInteger s =
     (if starts_with (CHR ''+'') s then map_option int (Digits 10 (tl s))
      else if starts_with (CHR ''-'') s then map_option (\<lambda>n. - int n) (Digits 10 (tl s))
      else map_option int (Digits 10 s))"

text \<open>What follows the mantissa: nothing (exponent 0) or an ExponentPart.\<close>

definition ExponentPart_opt :: "string \<Rightarrow> int option" where
  "ExponentPart_opt s =
     (if s = [] then Some 0
      else if starts_with (CHR ''e'') s \<or> starts_with (CHR ''E'') s then SignedInteger (tl s)
      else None)"

definition scale10 :: "rat \<Rightarrow> int \<Rightarrow> rat" where
  "scale10 q e = (if 0 \<le> e then q * 10 ^ nat e else q / 10 ^ nat (- e))"

definition StrUnsignedDecimalLiteral :: "string \<Rightarrow> jsnum" where
  "StrUnsignedDecimalLiteral s =
     (if s = ''Infinity'' then PosInf
      else
        let ip = takeWhile DecimalDigit s;
            r1 = dropWhile DecimalDigit s;
            dot = starts_with (CHR ''.'') r1;
            fp = (if dot then takeWhile DecimalDigit (tl r1) else []);
            r2 = (if dot then dropWhile DecimalDigit (tl r1) else r1)
        in if ip = [] \<and> fp = [] then NaN
           else (case (parse_digits 10 0 (ip @ fp), ExponentPart_opt r2) of
                   (Some m, Some e) \<Rightarrow> Fin (scale10 (of_nat m) (e - int (length fp)))
                 | _ \<Rightarrow> NaN))"

definition StrDecimalLiteral :: "string \<Rightarrow> jsnum" where
  "StrDecimalLiteral s =
     (if starts_with (CHR ''+'') s then StrUnsignedDecimalLiteral (tl s)
      else if starts_with (CHR ''-'') s then js_neg (StrUnsignedDecimalLiteral (tl s))
      else StrUnsignedDecimalLiteral s)"

text \<open>The radix of a \<open>0b\<close>, \<open>0o\<close> or \<open>0x\<close> literal, when the string starts as one.\<close>

definition NonDecimal_radix :: "string \<Rightarrow> nat option" where
  "NonDecimal_radix s =
     (if starts_with (CHR ''0'') s then
        (let p = toLowerCase (take 1 (tl s))
         in if p = ''b'' then Some 2 else if p = ''o'' then Some 8
            else if p = ''x'' then Some 16 else None)
      else None)"

definition StringToNumber :: "string \<Rightarrow> jsnum" where
  "StringToNumber str =
     (let s = trim str
      in if s = [] then Fin 0
         else (case NonDecimal_radix s of
                 Some radix \<Rightarrow>
                   (case Digits radix (drop 2 s) of Some n \<Rightarrow> Fin (of_nat n) | None \<Rightarrow> NaN)
               | None \<Rightarrow> StrDecimalLiteral s))"

fun Number :: "jsval \<Rightarrow> error + jsnum" where
  "Number JUndefined = Inr NaN"
| "Number JNull = Inr (Fin 0)"
| "Number (JBool b) = Inr (Fin (if b then 1 else 0))"
| "Number (JNum n) = Inr n"
| "Number (JStr s) = Inr (StringToNumber s)"
| "Number (JSymbol _) = Inl TypeError"


section \<open>The level registry\<close>

datatype colour = Red | Yellow | Blue | Cyan | Gray | Magenta

text \<open>The array literal the registry is built from: value, colour and name of each level.\<close>

definition level_defs :: "(rat \<times> colour \<times> string) list" where
  "level_defs =
     [(1, Red, ''SEVERE''),
      (2, Yellow, ''WARNING''),
      (3, Blue, ''INFO''),
      (4, Cyan, ''FINE''),
      (5, Gray, ''FINER''),
      (6, Gray, ''FINEST'')]"

text \<open>
  \<open>levels\<close> maps \<open>chalk.stripColor(level.name)\<close>, which is the plain name, to the value;
  its entries are in the order of definition, which is the order of \<open>Object.keys\<close>.
\<close>

definition levels :: "(string \<times> jsnum) list" where
  "levels = map (\<lambda>(val, c, nm). (nm, Fin val)) level_defs"

definition Object_keys :: "(string \<times> 'a) list \<Rightarrow> string list" where
  "Object_keys obj = map fst obj"

definition levels_WARNING :: jsnum where
  "levels_WARNING = (case map_of levels ''WARNING'' of Some v \<Rightarrow> v | None \<Rightarrow> NaN)"

definition levels_INFO :: jsnum where
  "levels_INFO = (case map_of levels ''INFO'' of Some v \<Rightarrow> v | None \<Rightarrow> NaN)"

section \<open>The environment: libraries and destinations\<close>

type_synonym stream = nat

type_synonym date = int

text \<open>What a call of a destination's \<open>write(text)\<close> does: return a flag, or throw.\<close>

datatype write_result = WriteReturns bool | WriteThrows

text \<open>
  The collaborators of the logger, none of which is code of the repository:
  \<open>util.format\<close> applied to the message parts, \<open>moment(date).format('YYYY-MM-DD HH:mm:ss')\<close>,
  the colouring functions of \<open>chalk\<close>, and the behaviour of each destination's \<open>write\<close>.
\<close>

record env =
  util_format :: "jsval list \<Rightarrow> string"
  moment_format :: "date \<Rightarrow> string"
  chalk :: "colour \<Rightarrow> string \<Rightarrow> string"
  stream_write :: "stream \<Rightarrow> string \<Rightarrow> write_result"

text \<open>\<open>reverseLevels\<close> maps each value to the coloured name.\<close>

definition reverseLevels :: "env \<Rightarrow> (jsnum \<times> string) list" where
  "reverseLevels e = map (\<lambda>(val, c, nm). (Fin val, chalk e c nm)) level_defs"

section \<open>Logger instances, routing tables and the task queue\<close>

text \<open>The name of a logger: absent, \<open>null\<close> or a string.\<close>

datatype jsname = NameUndefined | NameNull | NameStr string

type_synonym ref = nat

text \<open>
  A routing table is a \<open>Map\<close> from destinations to \<open>Set\<close>s of levels, kept in insertion
  order. \<open>Set.prototype.has\<close> compares with SameValueZero, which is equality on \<open>jsnum\<close>.
\<close>

type_synonym table = "(stream \<times> jsnum set) list"

record logger =
  name :: jsname
  hidden_level :: jsnum
  hidden_streams :: ref

text \<open>
  The task that \<open>log\<close> hands to \<open>setImmediate\<close>: the closure over \<open>self\<close>, \<open>now\<close>,
  \<open>instLevel\<close> and the arguments of the call (the level, then the messages).
\<close>

record task =
  task_self :: ref
  task_now :: date
  task_instLevel :: jsnum
  task_level :: jsnum
  task_messages :: "jsval list"

text \<open>
  The state of the process: the \<open>Map\<close> objects and the \<open>Logger\<close> objects by reference,
  the next free reference of each kind, the queue of \<open>setImmediate\<close> in order of
  submission, and every call of a destination's \<open>write\<close> made so far, in order.
\<close>

record world =
  maps :: "ref \<Rightarrow> table"
  loggers :: "ref \<Rightarrow> logger"
  next_map :: ref
  next_logger :: ref
  queue :: "task list"
  writes :: "(stream \<times> string) list"

definition stdout :: stream where
  "stdout = 0"

subsection \<open>The accessor pair of \<open>level\<close>\<close>

definition getLevel :: "logger \<Rightarrow> jsnum" where
  "getLevel this = hidden_level this"

text \<open>The setter returns the exception it throws, if any, and the instance afterwards.\<close>

definition setLevel :: "jsval \<Rightarrow> logger \<Rightarrow> error option \<times> logger" where
  "setLevel v this =
     (case Number v of
        Inl e \<Rightarrow> (Some e, this)
      | Inr level \<Rightarrow>
          if \<not> Number_isInteger level then (Some InvalidLoglevel, this)
          else (case Number (JNum level) of
                  Inl e \<Rightarrow> (Some e, this)
                | Inr n \<Rightarrow> (None, this\<lparr>hidden_level := n\<rparr>)))"

text \<open>The assignment \<open>instance.level = v\<close> on the instance at \<open>self\<close>.\<close>

definition assign_level :: "ref \<Rightarrow> jsval \<Rightarrow> world \<Rightarrow> error option \<times> world" where
  "assign_level self v w =
     (case setLevel v (loggers w self) of
        (r, this) \<Rightarrow> (r, w\<lparr>loggers := (loggers w)(self := this)\<rparr>))"

subsection \<open>The constructor\<close>

record options =
  streams :: "ref option"

definition levelsList :: "jsnum list" where
  "levelsList = map snd levels"

definition default_streams :: table where
  "default_streams = [(stdout, set levelsList)]"

text \<open>
  \<open>new Logger(name, level, options)\<close>: the reference of the new instance and the state
  afterwards, or the exception of the setter. An absent argument is \<open>JUndefined\<close> for
  \<open>level\<close> and \<open>None\<close> for \<open>options\<close>.
\<close>

definition Logger :: "jsname \<Rightarrow> jsval \<Rightarrow> options option \<Rightarrow> world \<Rightarrow> error + (ref \<times> world)" where
  "Logger nm level opts w =
     (let this0 = \<lparr>name = nm, hidden_level = levels_WARNING, hidden_streams = next_map w\<rparr>;
          w1 = w\<lparr>maps := (maps w)(next_map w := default_streams), next_map := Suc (next_map w)\<rparr>;
          r1 = (if level \<noteq> JUndefined \<and> level \<noteq> JNull then setLevel level this0
                else (None, this0))
      in case r1 of
           (Some e, _) \<Rightarrow> Inl e
         | (None, this1) \<Rightarrow>
             (let opts' = (case opts of None \<Rightarrow> \<lparr>streams = None\<rparr> | Some x \<Rightarrow> x);
                  this2 = (case streams opts' of
                             None \<Rightarrow> this1
                           | Some t \<Rightarrow> this1\<lparr>hidden_streams := t\<rparr>);
                  self = next_logger w1
              in Inr (self, w1\<lparr>loggers := (loggers w1)(self := this2),
                               next_logger := Suc self\<rparr>)))"

subsection \<open>log and the convenience methods\<close>

definition Logger_log :: "date \<Rightarrow> ref \<Rightarrow> jsnum \<Rightarrow> jsval list \<Rightarrow> world \<Rightarrow> world" where
  "Logger_log now self level messages w =
     (if js_gt level (getLevel (loggers w self)) then w
      else w\<lparr>queue := queue w @
                [\<lparr>task_self = self, task_now = now,
                  task_instLevel = getLevel (loggers w self),
                  task_level = level, task_messages = messages\<rparr>]\<rparr>)"

text \<open>
  The methods that the loop over \<open>Object.keys(levels)\<close> adds to the prototype: the name
  of each, with the key its function closes over.
\<close>

definition convenience_methods :: "(string \<times> string) list" where
  "convenience_methods = map (\<lambda>level. (toLowerCase level, level)) (Object_keys levels)"

text \<open>
  A call \<open>instance.m(...args)\<close> of such a method, \<open>None\<close> when \<open>m\<close> is not the
  name of one: the function prepends \<open>levels[level]\<close> to the arguments and calls \<open>log\<close>.
\<close>

definition call_method :: "string \<Rightarrow> date \<Rightarrow> ref \<Rightarrow> jsval list \<Rightarrow> world \<Rightarrow> world option" where
  "call_method m now self args w =
     (case map_of convenience_methods m of
        None \<Rightarrow> None
      | Some level \<Rightarrow>
          (case map_of levels level of
             None \<Rightarrow> None
           | Some r \<Rightarrow> Some (Logger_log now self r args w)))"

section \<open>The deferred write\<close>

text \<open>
  \<open>message.replace(/\r/g, '')\<close> and \<open>.split(/\n/)\<close>; the split of the empty string
  is one empty line.
\<close>

definition strip_CR :: "string \<Rightarrow> string" where
  "strip_CR message = filter (\<lambda>c. c \<noteq> CR) message"

fun split_newline :: "string \<Rightarrow> string list" where
  "split_newline [] = [[]]"
| "split_newline (c # cs) =
     (if c = LF then [] # split_newline cs
      else (case split_newline cs of
              [] \<Rightarrow> [[c]]
            | l # ls \<Rightarrow> (c # l) # ls))"

text \<open>\<open>[prefix, sep, line].join(' ') + '\n'\<close>\<close>

definition join_line :: "string \<Rightarrow> string \<Rightarrow> string \<Rightarrow> string" where
  "join_line prefix sep line = prefix @ '' '' @ sep @ '' '' @ line @ [LF]"

text \<open>
  The inner loop over the entries of the routing table, for one text: the exception that
  ended it, if any, and the calls of \<open>write\<close> it made, the throwing one included.
\<close>

fun fan_out :: "env \<Rightarrow> table \<Rightarrow> jsnum \<Rightarrow> string \<Rightarrow> error option \<times> (stream \<times> string) list" where
  "fan_out e [] messageLevel text = (None, [])"
| "fan_out e ((stream, applicableLevels) # rest) messageLevel text =
     (if messageLevel \<in> applicableLevels then
        (case stream_write e stream text of
           WriteThrows \<Rightarrow> (Some WriteError, [(stream, text)])
         | WriteReturns _ \<Rightarrow>
             (case fan_out e rest messageLevel text of
                (r, ws) \<Rightarrow> (r, (stream, text) # ws)))
      else fan_out e rest messageLevel text)"

text \<open>The \<open>forEach\<close> over the lines; \<open>sep\<close> is \<open>'***'\<close> at first and blank after each line.\<close>

fun each_line ::
  "env \<Rightarrow> table \<Rightarrow> jsnum \<Rightarrow> string \<Rightarrow> string \<Rightarrow> string list \<Rightarrow> error option \<times> (stream \<times> string) list"
where
  "each_line e tbl messageLevel prefix sep [] = (None, [])"
| "each_line e tbl messageLevel prefix sep (line # rest) =
     (case fan_out e tbl messageLevel (join_line prefix sep line) of
        (Some err, ws) \<Rightarrow> (Some err, ws)
      | (None, ws) \<Rightarrow>
          (case each_line e tbl messageLevel prefix ''   '' rest of
             (r, ws') \<Rightarrow> (r, ws @ ws')))"

definition name_segment :: "env \<Rightarrow> jsname \<Rightarrow> string" where
  "name_segment e nm =
     (case nm of
        NameUndefined \<Rightarrow> []
      | NameNull \<Rightarrow> []
      | NameStr s \<Rightarrow> chalk e Magenta s)"

text \<open>\<open>reverseLevels[messageLevel]\<close> under \<open>%s\<close>: a missing entry prints as \<open>undefined\<close>.\<close>

definition level_segment :: "env \<Rightarrow> jsnum \<Rightarrow> string" where
  "level_segment e messageLevel =
     (case map_of (reverseLevels e) messageLevel of
        Some nm \<Rightarrow> nm
      | None \<Rightarrow> ''undefined'')"

text \<open>\<open>util.format('[%s][%s][%s]', ...)\<close> on three strings.\<close>

definition make_prefix :: "string \<Rightarrow> string \<Rightarrow> string \<Rightarrow> string" where
  "make_prefix a b c = ''['' @ a @ ''][''  @ b @ ''][''  @ c @ '']''"

text \<open>
  \<open>__write\<close> applied to the instance at \<open>self\<close> in the state \<open>w\<close>: the exception it
  ends with, if any, and the calls of \<open>write\<close> it makes.
\<close>

definition dunder_write ::
  "env \<Rightarrow> world \<Rightarrow> ref \<Rightarrow> date \<Rightarrow> jsnum \<Rightarrow> jsnum \<Rightarrow> jsval list \<Rightarrow> error option \<times> (stream \<times> string) list"
where
  "dunder_write e w self date instLevel messageLevel messages =
     (let timestamp = moment_format e date;
          message = util_format e messages;
          prefix = make_prefix (chalk e Blue timestamp)
                     (name_segment e (name (loggers w self)))
                     (level_segment e messageLevel)
      in each_line e (maps w (hidden_streams (loggers w self))) messageLevel prefix ''***''
           (split_newline (strip_CR message)))"

text \<open>One callback of \<open>setImmediate\<close>, run in the state \<open>w\<close>.\<close>

definition run_task :: "env \<Rightarrow> task \<Rightarrow> world \<Rightarrow> error option \<times> world" where
  "run_task e t w =
     (case dunder_write e w (task_self t) (task_now t) (task_instLevel t) (task_level t)
             (task_messages t) of
        (r, ws) \<Rightarrow> (r, w\<lparr>writes := writes w @ ws\<rparr>))"

text \<open>
  The callbacks run in the order of submission; an exception out of a callback is
  uncaught and ends the process, so the callbacks after it do not run.
\<close>

fun run_tasks :: "env \<Rightarrow> task list \<Rightarrow> world \<Rightarrow> error option \<times> world" where
  "run_tasks e [] w = (None, w)"
| "run_tasks e (t # ts) w =
     (case run_task e t w of
        (Some err, w') \<Rightarrow> (Some err, w')
      | (None, w') \<Rightarrow> run_tasks e ts w')"

definition flush :: "env \<Rightarrow> world \<Rightarrow> error option \<times> world" where
  "flush e w = run_tasks e (queue w) (w\<lparr>queue := []\<rparr>)"

text \<open>
  Two states that agree on everything the deferred write reads or changes: the routing
  tables, the names and table references of the instances, and the writes made so far.
\<close>

definition same_but_levels :: "world \<Rightarrow> world \<Rightarrow> bool" where
  "same_but_levels w1 w2 \<longleftrightarrow>
     maps w1 = maps w2 \<and> writes w1 = writes w2 \<and>
     (\<lambda>s. name (loggers w1 s)) = (\<lambda>s. name (loggers w2 s)) \<and>
     (\<lambda>s. hidden_streams (loggers w1 s)) = (\<lambda>s. hidden_streams (loggers w2 s))"

section \<open>What a flush is expected to write\<close>

text \<open>The destinations of a routing table whose set holds the level, in the order of the table.\<close>

definition accepting :: "table \<Rightarrow> jsnum \<Rightarrow> stream list" where
  "accepting tbl lv = map fst (filter (\<lambda>(s, ls). lv \<in> ls) tbl)"

text \<open>
  The lines as the specification words them: the prefix, a space, the marker, a space,
  the line and a newline, where the marker is \<open>***\<close> on the first line and three blanks
  on every line after it.
\<close>

fun spec_lines :: "string \<Rightarrow> string list \<Rightarrow> string list" where
  "spec_lines prefix [] = []"
| "spec_lines prefix (l # ls) =
     (prefix @ '' *** '' @ l @ [LF]) # map (\<lambda>l'. prefix @ ''     '' @ l' @ [LF]) ls"

text \<open>The texts that the destination \<open>s\<close> received among the writes \<open>ws\<close>, in order.\<close>

definition written_to :: "stream \<Rightarrow> (stream \<times> string) list \<Rightarrow> string list" where
  "written_to s ws = map snd (filter (\<lambda>(s', _). s' = s) ws)"

text \<open>Each text in turn, written once to every accepting destination.\<close>

definition expected_writes :: "table \<Rightarrow> jsnum \<Rightarrow> string list \<Rightarrow> (stream \<times> string) list" where
  "expected_writes tbl lv texts = concat (map (\<lambda>text. map (\<lambda>s. (s, text)) (accepting tbl lv)) texts)"

text \<open>No call of \<open>write\<close> throws: every one returns, with whatever flag.\<close>

definition returns :: "env \<Rightarrow> bool" where
  "returns e \<longleftrightarrow> (\<forall>s text. stream_write e s text \<noteq> WriteThrows)"

section \<open>A sample configuration\<close>

text \<open>
  A logger named \<open>svc\<close>, and an environment to evaluate the model in: colours are off,
  the clock prints one fixed timestamp, and \<open>util.format\<close> is given on the argument lists
  of the samples only, a single string, which it returns as it is.
\<close>

definition svc :: logger where
  "svc = \<lparr>name = NameStr ''svc'', hidden_level = Fin 2, hidden_streams = 0\<rparr>"

definition sample_format :: "jsval list \<Rightarrow> string" where
  "sample_format parts = (case parts of [JStr s] \<Rightarrow> s | _ \<Rightarrow> [])"

definition sample_env :: "(stream \<Rightarrow> string \<Rightarrow> write_result) \<Rightarrow> env" where
  "sample_env wr =
     \<lparr>util_format = sample_format,
      moment_format = (\<lambda>_. ''2015-06-01 12:00:00''),
      chalk = (\<lambda>_ s. s),
      stream_write = wr\<rparr>"

text \<open>Every destination takes every write.\<close>

definition quiet_env :: env where
  "quiet_env = sample_env (\<lambda>_ _. WriteReturns True)"

text \<open>The state of a process that has created nothing yet.\<close>

definition world0 :: world where
  "world0 =
     \<lparr>maps = (\<lambda>_. []), loggers = (\<lambda>_. svc), next_map = 0, next_logger = 0,
      queue = [], writes = []\<rparr>"

text \<open>The state after \<open>new Logger('svc')\<close> in that process.\<close>

definition world1 :: world where
  "world1 = (case Logger (NameStr ''svc'') JUndefined None world0 of
               Inr (_, w) \<Rightarrow> w
             | Inl _ \<Rightarrow> world0)"

text \<open>
  A second destination; the state in which the routing table of \<open>svc\<close> has been replaced,
  and the one in which \<open>svc\<close> has been renamed; an environment in which the writes to
  standard output return \<open>false\<close>, and one in which they throw.
\<close>

definition logfile :: stream where
  "logfile = 1"

definition with_table :: "table \<Rightarrow> world" where
  "with_table tbl = world1\<lparr>maps := (maps world1)(0 := tbl)\<rparr>"

definition renamed :: "jsname \<Rightarrow> world" where
  "renamed nm = world1\<lparr>loggers := (loggers world1)(0 := (loggers world1 0)\<lparr>name := nm\<rparr>)\<rparr>"

definition flagging_env :: env where
  "flagging_env = sample_env (\<lambda>s _. WriteReturns (s \<noteq> stdout))"

definition throwing_env :: env where
  "throwing_env = sample_env (\<lambda>s _. if s = stdout then WriteThrows else WriteReturns True)"

section \<open>The threshold: coercion and validation\<close>

lemma setLevel_eq:
  "setLevel v this =
     (case Number v of
        Inl e \<Rightarrow> (Some e, this)
      | Inr n \<Rightarrow>
          if Number_isInteger n then (None, this\<lparr>hidden_level := n\<rparr>)
          else (Some InvalidLoglevel, this))"
  by (simp add: setLevel_def split: sum.splits)











section \<open>The threshold check of log\<close>

lemma js_le_not_gt: "js_le a b \<Longrightarrow> \<not> js_gt a b"
  by (cases a; cases b) auto

text \<open>
  C1. A call of \<open>log\<close> at a level greater than the threshold of that moment changes
  nothing: no task is queued, nothing is written. A call at a level less than or equal to
  the threshold queues exactly one task, which holds the time, the threshold, the level and
  the messages of the call, and returns with nothing written yet.
\<close>

theorem log_threshold:
  "(js_gt L (getLevel (loggers w self)) \<longrightarrow> Logger_log now self L parts w = w)
   \<and> (js_le L (getLevel (loggers w self)) \<longrightarrow>
        Logger_log now self L parts w =
          w\<lparr>queue := queue w @
               [\<lparr>task_self = self, task_now = now,
                 task_instLevel = getLevel (loggers w self),
                 task_level = L, task_messages = parts\<rparr>]\<rparr>
        \<and> length (queue (Logger_log now self L parts w)) = Suc (length (queue w))
        \<and> writes (Logger_log now self L parts w) = writes w)"
  by (simp add: Logger_log_def js_le_not_gt)

theorem log_threshold_witness:
  "js_gt (Fin 3) (getLevel (loggers world0 0))
   \<and> Logger_log 7 0 (Fin 3) [JStr ''x''] world0 = world0
   \<and> js_le (Fin 1) (getLevel (loggers world0 0))
   \<and> queue (Logger_log 7 0 (Fin 1) [JStr ''x''] world0) =
       [\<lparr>task_self = 0, task_now = 7, task_instLevel = Fin 2, task_level = Fin 1,
         task_messages = [JStr ''x'']\<rparr>]
   \<and> writes (Logger_log 7 0 (Fin 1) [JStr ''x''] world0) = []"
  using log_threshold [of "Fin 3" world0 0 7 "[JStr ''x'']"]
    log_threshold [of "Fin 1" world0 0 7 "[JStr ''x'']"]
  by (simp add: world0_def svc_def getLevel_def)

section \<open>The convenience methods\<close>

lemma levels_eval:
  "levels = [(''SEVERE'', Fin 1), (''WARNING'', Fin 2), (''INFO'', Fin 3),
             (''FINE'', Fin 4), (''FINER'', Fin 5), (''FINEST'', Fin 6)]"
  by (simp add: levels_def level_defs_def)

lemma convenience_methods_eval:
  "convenience_methods =
     [(''severe'', ''SEVERE''), (''warning'', ''WARNING''), (''info'', ''INFO''),
      (''fine'', ''FINE''), (''finer'', ''FINER''), (''finest'', ''FINEST'')]"
  by (simp add: convenience_methods_def Object_keys_def levels_eval toLowerCase_def
      toLowerCase_char_def)

text \<open>
  C7. The keys of \<open>Logger.levels\<close>, lower-cased, are exactly the names of the
  convenience methods: severe, warning, info, fine, finer, finest. Calling the method
  of a level with some arguments is calling \<open>log\<close> with the rank of that level and the
  same arguments.
\<close>

theorem convenience_methods_roundtrip:
  "toLowerCase ` set (Object_keys levels) = set (map fst convenience_methods)
   \<and> set (map fst convenience_methods) =
       {''severe'', ''warning'', ''info'', ''fine'', ''finer'', ''finest''}
   \<and> (call_method m now self args w \<noteq> None \<longleftrightarrow> m \<in> set (map fst convenience_methods))
   \<and> (map_of levels key = Some r \<longrightarrow>
         call_method (toLowerCase key) now self args w = Some (Logger_log now self r args w))"
proof -
  have 1: "toLowerCase ` set (Object_keys levels) = set (map fst convenience_methods)"
    by (simp add: convenience_methods_def image_image comp_def flip: set_map)
  have 2: "set (map fst convenience_methods) =
       {''severe'', ''warning'', ''info'', ''fine'', ''finer'', ''finest''}"
    by (simp add: convenience_methods_eval)
  have 3: "call_method m now self args w \<noteq> None \<longleftrightarrow> m \<in> set (map fst convenience_methods)"
    unfolding 2 by (simp add: call_method_def convenience_methods_eval levels_eval)
  have 4: "call_method (toLowerCase key) now self args w = Some (Logger_log now self r args w)"
    if "map_of levels key = Some r"
    using that
    by (auto simp: levels_eval call_method_def convenience_methods_eval toLowerCase_def
        toLowerCase_char_def split: if_splits)
  show ?thesis using 1 2 3 4 by blast
qed

theorem convenience_methods_roundtrip_witness:
  "map_of levels ''INFO'' = Some (Fin 3)
   \<and> call_method ''info'' 7 0 [JStr ''x''] world0 = Some (Logger_log 7 0 (Fin 3) [JStr ''x''] world0)"
  using convenience_methods_roundtrip
    [where key = "''INFO''" and r = "Fin 3" and now = 7 and self = 0 and args = "[JStr ''x'']"
       and w = world0]
  by (simp add: levels_eval toLowerCase_def toLowerCase_char_def)

section \<open>The deferred write does not read the threshold\<close>

lemma same_but_levels_fields:
  assumes "same_but_levels w1 w2"
  shows "maps w1 = maps w2" and "writes w1 = writes w2"
    and "name (loggers w1 s) = name (loggers w2 s)"
    and "hidden_streams (loggers w1 s) = hidden_streams (loggers w2 s)"
  using assms by (auto simp: same_but_levels_def dest: fun_cong)

lemma dunder_write_same:
  "same_but_levels w1 w2 \<Longrightarrow>
   dunder_write e w1 self date instLevel messageLevel messages =
   dunder_write e w2 self date instLevel messageLevel messages"
  by (simp add: dunder_write_def same_but_levels_fields [of w1 w2])

lemma run_task_same:
  assumes "same_but_levels w1 w2"
  shows "fst (run_task e t w1) = fst (run_task e t w2)"
    and "same_but_levels (snd (run_task e t w1)) (snd (run_task e t w2))"
  using assms
  by (simp_all add: run_task_def dunder_write_same [of w1 w2] same_but_levels_def
      split: prod.splits)

lemma run_tasks_same:
  "same_but_levels w1 w2 \<Longrightarrow>
   fst (run_tasks e ts w1) = fst (run_tasks e ts w2) \<and>
   same_but_levels (snd (run_tasks e ts w1)) (snd (run_tasks e ts w2))"
proof (induction ts arbitrary: w1 w2)
  case Nil
  then show ?case by simp
next
  case (Cons t ts)
  obtain r1 v1 where a: "run_task e t w1 = (r1, v1)" by (cases "run_task e t w1")
  obtain r2 v2 where b: "run_task e t w2 = (r2, v2)" by (cases "run_task e t w2")
  have r: "r1 = r2" and v: "same_but_levels v1 v2"
    using run_task_same [OF Cons.prems, of e t] a b by simp_all
  show ?case
  proof (cases r1)
    case None
    then show ?thesis using a b r Cons.IH [OF v] by simp
  next
    case (Some err)
    then show ?thesis using a b r v by simp
  qed
qed

lemma assign_level_same: "same_but_levels (snd (assign_level s v w)) w"
  by (auto simp: assign_level_def setLevel_def same_but_levels_def split: sum.splits)

lemma assign_level_queue: "queue (snd (assign_level s v w)) = queue w"
  by (auto simp: assign_level_def setLevel_def split: sum.splits)

lemma flush_same:
  assumes "same_but_levels w1 w2" and "queue w1 = queue w2"
  shows "fst (flush e w1) = fst (flush e w2)"
    and "writes (snd (flush e w1)) = writes (snd (flush e w2))"
proof -
  have "same_but_levels (w1\<lparr>queue := []\<rparr>) (w2\<lparr>queue := []\<rparr>)"
    using assms(1) by (simp add: same_but_levels_def)
  from run_tasks_same [OF this, of e "queue w2"]
  show "fst (flush e w1) = fst (flush e w2)"
    and "writes (snd (flush e w1)) = writes (snd (flush e w2))"
    using assms(2) by (simp_all add: flush_def same_but_levels_def)
qed

text \<open>
  C6. Whether \<open>log\<close> queues a task is decided by the threshold at the call alone.
  Assigning any value to the threshold of any instance after \<open>log\<close> has returned and
  before the queue is run changes neither what is written nor whether the run ends in
  an exception: an accepted call is written as before, a rejected call is never written.
\<close>

theorem decision_at_call_time:
  "Logger_log now self L parts w =
     (if js_gt L (getLevel (loggers w self)) then w
      else w\<lparr>queue := queue w @
               [\<lparr>task_self = self, task_now = now,
                 task_instLevel = getLevel (loggers w self),
                 task_level = L, task_messages = parts\<rparr>]\<rparr>)
   \<and> writes (snd (flush e (snd (assign_level s v (Logger_log now self L parts w))))) =
       writes (snd (flush e (Logger_log now self L parts w)))
   \<and> fst (flush e (snd (assign_level s v (Logger_log now self L parts w)))) =
       fst (flush e (Logger_log now self L parts w))"
proof -
  let ?w = "Logger_log now self L parts w"
  have a: "same_but_levels (snd (assign_level s v ?w)) ?w"
    by (rule assign_level_same)
  have b: "queue (snd (assign_level s v ?w)) = queue ?w"
    by (rule assign_level_queue)
  from flush_same [OF a b, of e] show ?thesis
    by (simp add: Logger_log_def)
qed

section \<open>Ranks outside the registry\<close>

lemma default_streams_eval:
  "default_streams = [(stdout, {Fin 1, Fin 2, Fin 3, Fin 4, Fin 5, Fin 6})]"
  by (simp add: default_streams_def levelsList_def levels_eval)

lemma Logger_default_table:
  "Logger nm lv None w0 = Inr (s, w) \<Longrightarrow>
   maps w (hidden_streams (loggers w s)) = default_streams"
  by (auto simp: Logger_def Let_def setLevel_eq split: if_splits sum.splits prod.splits option.splits)

lemma world1_eval:
  "Logger (NameStr ''svc'') JUndefined None world0 = Inr (0, world1)"
  "loggers world1 0 = svc" "maps world1 0 = default_streams"
  "queue world1 = []" "writes world1 = []"
  by (simp_all add: world1_def Logger_def world0_def svc_def levels_WARNING_def levels_eval)

lemma fan_out_none:
  "\<forall>(s, ls) \<in> set tbl. lv \<notin> ls \<Longrightarrow> fan_out e tbl lv text = (None, [])"
  by (induction tbl) auto

lemma each_line_none:
  "\<forall>(s, ls) \<in> set tbl. lv \<notin> ls \<Longrightarrow> each_line e tbl lv prefix sep lines = (None, [])"
  by (induction lines arbitrary: sep) (simp_all add: fan_out_none)

text \<open>
  C9. A rank outside the six registered ones that is less than or equal to the threshold,
  or is \<open>NaN\<close>, passes the check of \<open>log\<close>, which queues a task; run on an instance
  whose routing table is the default one, the task writes nothing, since the set of the
  default table holds the six registered ranks only.
\<close>

theorem unregistered_rank_writes_nothing:
  assumes "r \<notin> {Fin 1, Fin 2, Fin 3, Fin 4, Fin 5, Fin 6}"
    and "js_le r (getLevel (loggers w self)) \<or> r = NaN"
    and "maps w' (hidden_streams (loggers w' self)) = default_streams"
  shows "default_streams = [(stdout, {Fin 1, Fin 2, Fin 3, Fin 4, Fin 5, Fin 6})]
    \<and> Logger_log now self r parts w =
        w\<lparr>queue := queue w @
             [\<lparr>task_self = self, task_now = now, task_instLevel = getLevel (loggers w self),
               task_level = r, task_messages = parts\<rparr>]\<rparr>
    \<and> run_task e
         \<lparr>task_self = self, task_now = now, task_instLevel = getLevel (loggers w self),
          task_level = r, task_messages = parts\<rparr> w' = (None, w')"
proof -
  have "\<not> js_gt r (getLevel (loggers w self))"
    using assms(2) by (auto simp: js_le_not_gt)
  then have q: "Logger_log now self r parts w =
        w\<lparr>queue := queue w @
             [\<lparr>task_self = self, task_now = now, task_instLevel = getLevel (loggers w self),
               task_level = r, task_messages = parts\<rparr>]\<rparr>"
    by (simp add: Logger_log_def)
  have "\<forall>(s, ls) \<in> set default_streams. r \<notin> ls"
    using assms(1) by (simp add: default_streams_eval)
  then have "dunder_write e w' self now (getLevel (loggers w self)) r parts = (None, [])"
    by (simp add: dunder_write_def assms(3) each_line_none)
  then have "run_task e
         \<lparr>task_self = self, task_now = now, task_instLevel = getLevel (loggers w self),
          task_level = r, task_messages = parts\<rparr> w' = (None, w')"
    by (simp add: run_task_def)
  with q show ?thesis by (simp add: default_streams_eval)
qed

theorem unregistered_rank_writes_nothing_witness:
  "Logger (NameStr ''svc'') JUndefined None world0 = Inr (0, world1)
   \<and> maps world1 (hidden_streams (loggers world1 0)) = default_streams
   \<and> js_le (Fin 0) (getLevel (loggers world1 0))
   \<and> flush quiet_env (Logger_log 7 0 (Fin 0) [JStr ''x''] world1) = (None, world1)
   \<and> flush quiet_env (Logger_log 7 0 NaN [JStr ''x''] world1) = (None, world1)"
proof -
  have t: "maps world1 (hidden_streams (loggers world1 0)) = default_streams"
    by (simp add: world1_eval svc_def)
  have l: "js_le (Fin 0) (getLevel (loggers world1 0))"
    by (simp add: world1_eval svc_def getLevel_def)
  have w: "world1\<lparr>queue := []\<rparr> = world1"
    by (simp add: world1_eval)
  have a: "flush quiet_env (Logger_log 7 0 (Fin 0) [JStr ''x''] world1) = (None, world1)"
    using unregistered_rank_writes_nothing [of "Fin 0" world1 0 world1 7 "[JStr ''x'']" quiet_env] t l
    by (simp add: flush_def world1_eval w)
  have b: "flush quiet_env (Logger_log 7 0 NaN [JStr ''x''] world1) = (None, world1)"
    using unregistered_rank_writes_nothing [of NaN world1 0 world1 7 "[JStr ''x'']" quiet_env] t
    by (simp add: flush_def world1_eval w)
  show ?thesis using a b t l by (simp add: world1_eval)
qed

section \<open>Evaluating a flush\<close>

lemma reverseLevels_sample:
  "reverseLevels (sample_env wr) =
     [(Fin 1, ''SEVERE''), (Fin 2, ''WARNING''), (Fin 3, ''INFO''),
      (Fin 4, ''FINE''), (Fin 5, ''FINER''), (Fin 6, ''FINEST'')]"
  by (simp add: reverseLevels_def level_defs_def sample_env_def)

lemma split_newline_x: "split_newline (strip_CR ''x'') = [''x'']"
  by (simp add: strip_CR_def LF_def CR_def)

lemma flush_sample_severe:
  "flush quiet_env (Logger_log 7 0 (Fin 1) [JStr ''x''] world1) =
     (None, world1\<lparr>writes := [(stdout, ''[2015-06-01 12:00:00][svc][SEVERE] *** x'' @ [LF])]\<rparr>)"
  by (simp add: flush_def Logger_log_def world1_eval svc_def getLevel_def run_task_def
      dunder_write_def quiet_env_def reverseLevels_sample level_segment_def name_segment_def
      make_prefix_def join_line_def split_newline_x default_streams_eval sample_format_def,
      simp add: sample_env_def sample_format_def split_newline_x world1_eval join_line_def)

theorem decision_at_call_time_witness:
  "writes (snd (flush quiet_env (snd (assign_level 0 (JNum (Fin 0))
       (Logger_log 7 0 (Fin 1) [JStr ''x''] world1))))) =
     [(stdout, ''[2015-06-01 12:00:00][svc][SEVERE] *** x'' @ [LF])]
   \<and> writes (snd (flush quiet_env (snd (assign_level 0 (JNum (Fin 6))
       (Logger_log 7 0 (Fin 3) [JStr ''x''] world1))))) = []"
proof -
  have r: "Logger_log 7 0 (Fin 3) [JStr ''x''] world1 = world1"
    by (simp add: Logger_log_def world1_eval svc_def getLevel_def)
  have e: "flush quiet_env world1 = (None, world1)"
    by (simp add: flush_def world1_eval)
  show ?thesis
    using decision_at_call_time [of 7 0 "Fin 1" "[JStr ''x'']" world1 quiet_env 0 "JNum (Fin 0)",
        THEN conjunct2]
      decision_at_call_time [of 7 0 "Fin 3" "[JStr ''x'']" world1 quiet_env 0 "JNum (Fin 6)",
        THEN conjunct2]
    by (simp add: flush_sample_severe r e world1_eval)
qed

section \<open>The fan-out of a flush\<close>

lemma fan_out_returns:
  "returns e \<Longrightarrow> fan_out e tbl lv text = (None, map (\<lambda>s. (s, text)) (accepting tbl lv))"
proof (induction tbl)
  case Nil
  then show ?case by (simp add: accepting_def)
next
  case (Cons entry tbl)
  obtain s ls where entry: "entry = (s, ls)" by (cases entry)
  have "\<exists>b. stream_write e s text = WriteReturns b"
    using Cons.prems by (cases "stream_write e s text") (auto simp: returns_def)
  then show ?case
    using Cons entry by (auto simp: accepting_def)
qed

lemma each_line_blank:
  "returns e \<Longrightarrow>
   each_line e tbl lv prefix ''   '' lines =
     (None, expected_writes tbl lv (map (\<lambda>l. prefix @ ''     '' @ l @ [LF]) lines))"
  by (induction lines) (simp_all add: fan_out_returns expected_writes_def join_line_def)

lemma each_line_returns:
  "returns e \<Longrightarrow>
   each_line e tbl lv prefix ''***'' lines = (None, expected_writes tbl lv (spec_lines prefix lines))"
  by (cases lines) (simp_all add: fan_out_returns each_line_blank expected_writes_def join_line_def)





lemma fan_out_members:
  "(s, x) \<in> set (snd (fan_out e tbl lv t)) \<Longrightarrow> x = t \<and> (\<exists>ls. (s, ls) \<in> set tbl \<and> lv \<in> ls)"
proof (induction tbl)
  case Nil
  then show ?case by simp
next
  case (Cons entry tbl)
  obtain s' ls' where entry: "entry = (s', ls')" by (cases entry)
  show ?case
    using Cons entry
    by (cases "stream_write e s' t")
      (auto split: if_splits prod.splits)
qed

lemma each_line_members:
  "(s, x) \<in> set (snd (each_line e tbl lv prefix sep lines)) \<Longrightarrow>
   (\<exists>sep' line. line \<in> set lines \<and> x = join_line prefix sep' line) \<and>
   (\<exists>ls. (s, ls) \<in> set tbl \<and> lv \<in> ls)"
proof (induction lines arbitrary: sep)
  case Nil
  then show ?case by simp
next
  case (Cons l lines)
  obtain r ws where f: "fan_out e tbl lv (join_line prefix sep l) = (r, ws)"
    by (cases "fan_out e tbl lv (join_line prefix sep l)")
  obtain r' ws' where g: "each_line e tbl lv prefix ''   '' lines = (r', ws')"
    by (cases "each_line e tbl lv prefix ''   '' lines")
  have "(s, x) \<in> set ws \<or> (s, x) \<in> set ws'"
    using Cons.prems f g by (cases r) auto
  then show ?case
  proof
    assume "(s, x) \<in> set ws"
    then have "(s, x) \<in> set (snd (fan_out e tbl lv (join_line prefix sep l)))"
      using f by simp
    from fan_out_members [OF this] show ?thesis by auto
  next
    assume "(s, x) \<in> set ws'"
    then have "(s, x) \<in> set (snd (each_line e tbl lv prefix ''   '' lines))"
      using g by simp
    from Cons.IH [OF this] show ?thesis by auto
  qed
qed

lemma dunder_write_returns:
  "returns e \<Longrightarrow>
   dunder_write e w self date instLevel L parts =
     (None, expected_writes (maps w (hidden_streams (loggers w self))) L
        (spec_lines
           (make_prefix (chalk e Blue (moment_format e date))
              (name_segment e (name (loggers w self))) (level_segment e L))
           (split_newline (strip_CR (util_format e parts)))))"
  by (simp add: dunder_write_def each_line_returns)






lemma levels_INFO_eval: "levels_INFO = Fin 3"
  by (simp add: levels_INFO_def levels_eval)


text \<open>
  C5, for calls of \<open>write\<close> that return. A call of \<open>write\<close> that returns, whatever
  flag it returns, does not keep the flush from the remaining destinations and lines: when
  every call returns, each line is written once to each accepting destination, in order,
  nothing is retried, and the flush is the one that takes place when every write succeeds.
\<close>

theorem write_flags_ignored:
  assumes "returns e"
  shows "dunder_write e w self date instLevel L parts =
     (None, expected_writes (maps w (hidden_streams (loggers w self))) L
        (spec_lines
           (make_prefix (chalk e Blue (moment_format e date))
              (name_segment e (name (loggers w self))) (level_segment e L))
           (split_newline (strip_CR (util_format e parts)))))
    \<and> dunder_write e w self date instLevel L parts =
        dunder_write (e\<lparr>stream_write := (\<lambda>_ _. WriteReturns True)\<rparr>) w self date instLevel L parts"
proof -
  let ?ok = "e\<lparr>stream_write := (\<lambda>_ _. WriteReturns True)\<rparr>"
  have ok: "returns ?ok"
    by (simp add: returns_def)
  have same: "level_segment ?ok L = level_segment e L"
    "name_segment ?ok nm = name_segment e nm" for nm
    by (simp_all add: level_segment_def reverseLevels_def name_segment_def
        split: jsname.splits)
  have "dunder_write ?ok w self date instLevel L parts =
      dunder_write e w self date instLevel L parts"
    by (simp add: dunder_write_returns [OF ok] dunder_write_returns [OF assms] same)
  then show ?thesis
    by (simp add: dunder_write_returns [OF assms])
qed

text \<open>
  C10. The task of an accepted call holds the time, the threshold, the level and the
  messages of the call, and no name. Every line it writes, in whatever later state it
  runs, carries the name that the instance has in that later state; a name that is
  \<open>null\<close> or \<open>undefined\<close> gives an empty segment.
\<close>

theorem name_read_at_flush:
  assumes "\<not> js_gt L (getLevel (loggers w self))"
  shows "queue (Logger_log now self L parts w) =
      queue w @ [\<lparr>task_self = self, task_now = now, task_instLevel = getLevel (loggers w self),
                  task_level = L, task_messages = parts\<rparr>]
    \<and> (\<exists>ws. snd (run_task e \<lparr>task_self = self, task_now = now,
                  task_instLevel = getLevel (loggers w self),
                  task_level = L, task_messages = parts\<rparr> w') = w'\<lparr>writes := writes w' @ ws\<rparr>
          \<and> (\<forall>s x. (s, x) \<in> set ws \<longrightarrow>
                (\<exists>sep line. line \<in> set (split_newline (strip_CR (util_format e parts))) \<and>
                   x = ''['' @ chalk e Blue (moment_format e now) @ ''][''
                       @ name_segment e (name (loggers w' self)) @ ''][''
                       @ level_segment e L @ '']'' @ '' '' @ sep @ '' '' @ line @ [LF])))
    \<and> name_segment e NameNull = []
    \<and> name_segment e NameUndefined = []"
proof -
  have 1: "queue (Logger_log now self L parts w) =
      queue w @ [\<lparr>task_self = self, task_now = now, task_instLevel = getLevel (loggers w self),
                  task_level = L, task_messages = parts\<rparr>]"
    using assms by (simp add: Logger_log_def)
  let ?ws = "snd (dunder_write e w' self now (getLevel (loggers w self)) L parts)"
  have 2: "snd (run_task e \<lparr>task_self = self, task_now = now,
                  task_instLevel = getLevel (loggers w self),
                  task_level = L, task_messages = parts\<rparr> w') = w'\<lparr>writes := writes w' @ ?ws\<rparr>"
    by (simp add: run_task_def split: prod.splits)
  have 3: "\<exists>sep line. line \<in> set (split_newline (strip_CR (util_format e parts))) \<and>
                   x = ''['' @ chalk e Blue (moment_format e now) @ ''][''
                       @ name_segment e (name (loggers w' self)) @ ''][''
                       @ level_segment e L @ '']'' @ '' '' @ sep @ '' '' @ line @ [LF]"
    if "(s, x) \<in> set ?ws" for s x
    using each_line_members [of s x e "maps w' (hidden_streams (loggers w' self))" L
        "make_prefix (chalk e Blue (moment_format e now))
           (name_segment e (name (loggers w' self))) (level_segment e L)" "''***''"
        "split_newline (strip_CR (util_format e parts))"] that
    by (simp add: dunder_write_def join_line_def make_prefix_def)
  have 4: "name_segment e NameNull = []" "name_segment e NameUndefined = []"
    by (simp_all add: name_segment_def)
  show ?thesis using 1 2 3 4 by blast
qed

section \<open>The sample configuration at work\<close>

lemma stdout_neq_logfile: "stdout \<noteq> logfile" "logfile \<noteq> stdout"
  by (simp_all add: stdout_def logfile_def)

lemma sample_env_sel:
  "util_format (sample_env wr) = sample_format"
  "moment_format (sample_env wr) d = ''2015-06-01 12:00:00''"
  "chalk (sample_env wr) c str = str"
  "stream_write (sample_env wr) = wr"
  by (simp_all add: sample_env_def)

lemma level_segment_sample:
  "level_segment (sample_env wr) (Fin 1) = ''SEVERE''"
  "level_segment (sample_env wr) (Fin 2) = ''WARNING''"
  by (simp_all add: level_segment_def reverseLevels_sample)

lemma name_segment_sample:
  "name_segment (sample_env wr) (NameStr str) = str"
  "name_segment (sample_env wr) NameNull = []"
  by (simp_all add: name_segment_def sample_env_sel)

lemma with_table_sel:
  "maps (with_table tbl) 0 = tbl" "loggers (with_table tbl) 0 = svc"
  "queue (with_table tbl) = []" "writes (with_table tbl) = []"
  by (simp_all add: with_table_def world1_eval)

lemma returns_sample: "returns quiet_env" "returns flagging_env"
  by (simp_all add: returns_def quiet_env_def flagging_env_def sample_env_sel)



lemma sample_format_x: "sample_format [JStr ''x''] = ''x''"
  by (simp add: sample_format_def)


lemma renamed_sel:
  "maps (renamed nm) 0 = default_streams"
  "loggers (renamed nm) 0 = svc\<lparr>name := nm\<rparr>"
  "queue (renamed nm) = []" "writes (renamed nm) = []"
  by (simp_all add: renamed_def world1_eval)

lemma dunder_write_sample_x:
  "returns (sample_env wr) \<Longrightarrow>
   dunder_write (sample_env wr) w self d i L [JStr ''x''] =
     (None, expected_writes (maps w (hidden_streams (loggers w self))) L
        [''[2015-06-01 12:00:00]['' @ name_segment (sample_env wr) (name (loggers w self))
           @ '']['' @ level_segment (sample_env wr) L @ ''] *** x'' @ [LF]])"
  by (simp add: dunder_write_returns sample_env_sel sample_format_x split_newline_x
      make_prefix_def)


text \<open>
  A \<open>write\<close> that throws is not caught. Here the write to standard output throws: the
  flush ends with the exception, and the second destination, whose set holds the level,
  is never written to.
\<close>

theorem write_failure_counterexample:
  "stream_write throwing_env stdout (''[2015-06-01 12:00:00][svc][SEVERE] *** x'' @ [LF]) = WriteThrows
   \<and> maps (with_table [(stdout, {Fin 1}), (logfile, {Fin 1})])
        (hidden_streams (loggers (with_table [(stdout, {Fin 1}), (logfile, {Fin 1})]) 0)) =
       [(stdout, {Fin 1}), (logfile, {Fin 1})]
   \<and> flush throwing_env
        (Logger_log 7 0 (Fin 1) [JStr ''x''] (with_table [(stdout, {Fin 1}), (logfile, {Fin 1})])) =
       (Some WriteError,
        (with_table [(stdout, {Fin 1}), (logfile, {Fin 1})])
          \<lparr>writes := [(stdout, ''[2015-06-01 12:00:00][svc][SEVERE] *** x'' @ [LF])]\<rparr>)
   \<and> written_to logfile (writes (snd (flush throwing_env
        (Logger_log 7 0 (Fin 1) [JStr ''x''] (with_table [(stdout, {Fin 1}), (logfile, {Fin 1})]))))) = []"
proof -
  let ?w = "with_table [(stdout, {Fin 1}), (logfile, {Fin 1})]"
  have 1: "stream_write throwing_env stdout t = WriteThrows" for t
    by (simp add: throwing_env_def sample_env_sel)
  have 2: "maps ?w (hidden_streams (loggers ?w 0)) = [(stdout, {Fin 1}), (logfile, {Fin 1})]"
    by (simp add: with_table_sel svc_def)
  have q: "?w\<lparr>queue := []\<rparr> = ?w"
    by (simp add: with_table_sel)
  have l: "Logger_log 7 0 (Fin 1) [JStr ''x''] ?w =
      ?w\<lparr>queue := [\<lparr>task_self = 0, task_now = 7, task_instLevel = Fin 2, task_level = Fin 1,
                     task_messages = [JStr ''x'']\<rparr>]\<rparr>"
    by (simp add: Logger_log_def with_table_sel svc_def getLevel_def)
  have d: "dunder_write throwing_env ?w 0 7 (Fin 2) (Fin 1) [JStr ''x''] =
      (Some WriteError, [(stdout, ''[2015-06-01 12:00:00][svc][SEVERE] *** x'' @ [LF])])"
    by (simp add: dunder_write_def 2 throwing_env_def sample_env_sel sample_format_x
        split_newline_x level_segment_sample name_segment_sample with_table_sel svc_def
        make_prefix_def join_line_def stdout_neq_logfile)
  have 3: "flush throwing_env (Logger_log 7 0 (Fin 1) [JStr ''x''] ?w) =
       (Some WriteError,
        ?w\<lparr>writes := [(stdout, ''[2015-06-01 12:00:00][svc][SEVERE] *** x'' @ [LF])]\<rparr>)"
    by (simp add: l flush_def q run_task_def d with_table_sel)
  have 4: "written_to logfile (writes (snd (flush throwing_env
        (Logger_log 7 0 (Fin 1) [JStr ''x''] ?w)))) = []"
    by (simp add: 3 written_to_def stdout_neq_logfile)
  show ?thesis using 1 2 3 4 by blast
qed

theorem write_flags_ignored_witness:
  "returns flagging_env
   \<and> stream_write flagging_env stdout (''[2015-06-01 12:00:00][svc][SEVERE] *** x'' @ [LF]) =
       WriteReturns False
   \<and> dunder_write flagging_env (with_table [(stdout, {Fin 1}), (logfile, {Fin 1})]) 0 7 (Fin 2) (Fin 1)
        [JStr ''x''] =
       (None, [(stdout, ''[2015-06-01 12:00:00][svc][SEVERE] *** x'' @ [LF]),
               (logfile, ''[2015-06-01 12:00:00][svc][SEVERE] *** x'' @ [LF])])"
proof -
  let ?w = "with_table [(stdout, {Fin 1}), (logfile, {Fin 1})]"
  have 1: "stream_write flagging_env stdout t = WriteReturns False" for t
    by (simp add: flagging_env_def sample_env_sel)
  have 2: "dunder_write flagging_env ?w 0 7 (Fin 2) (Fin 1) [JStr ''x''] =
       (None, [(stdout, ''[2015-06-01 12:00:00][svc][SEVERE] *** x'' @ [LF]),
               (logfile, ''[2015-06-01 12:00:00][svc][SEVERE] *** x'' @ [LF])])"
    using write_flags_ignored [OF returns_sample(2), of ?w 0 7 "Fin 2" "Fin 1" "[JStr ''x'']"]
    by (simp add: flagging_env_def sample_env_sel sample_format_x split_newline_x
        level_segment_sample name_segment_sample with_table_sel svc_def make_prefix_def
        expected_writes_def accepting_def stdout_neq_logfile)
  show ?thesis using 1 2 returns_sample(2) by blast
qed

theorem name_read_at_flush_witness:
  "\<not> js_gt (Fin 1) (getLevel (loggers world1 0))
   \<and> name (loggers world1 0) = NameStr ''svc''
   \<and> queue (Logger_log 7 0 (Fin 1) [JStr ''x''] world1) =
       [\<lparr>task_self = 0, task_now = 7, task_instLevel = Fin 2, task_level = Fin 1,
         task_messages = [JStr ''x'']\<rparr>]
   \<and> run_task quiet_env
        \<lparr>task_self = 0, task_now = 7, task_instLevel = Fin 2, task_level = Fin 1,
         task_messages = [JStr ''x'']\<rparr> (renamed (NameStr ''api'')) =
       (None, (renamed (NameStr ''api''))
          \<lparr>writes := [(stdout, ''[2015-06-01 12:00:00][api][SEVERE] *** x'' @ [LF])]\<rparr>)
   \<and> run_task quiet_env
        \<lparr>task_self = 0, task_now = 7, task_instLevel = Fin 2, task_level = Fin 1,
         task_messages = [JStr ''x'']\<rparr> (renamed NameNull) =
       (None, (renamed NameNull)
          \<lparr>writes := [(stdout, ''[2015-06-01 12:00:00][][SEVERE] *** x'' @ [LF])]\<rparr>)"
proof -
  have g: "\<not> js_gt (Fin 1) (getLevel (loggers world1 0))"
    by (simp add: world1_eval svc_def getLevel_def)
  have n: "name (loggers world1 0) = NameStr ''svc''"
    by (simp add: world1_eval svc_def)
  have q: "queue (Logger_log 7 0 (Fin 1) [JStr ''x''] world1) =
       [\<lparr>task_self = 0, task_now = 7, task_instLevel = Fin 2, task_level = Fin 1,
         task_messages = [JStr ''x'']\<rparr>]"
    using name_read_at_flush [OF g, of 7 "[JStr ''x'']" quiet_env world1]
    by (simp add: world1_eval svc_def getLevel_def)
  have r: "run_task quiet_env
        \<lparr>task_self = 0, task_now = 7, task_instLevel = Fin 2, task_level = Fin 1,
         task_messages = [JStr ''x'']\<rparr> (renamed nm) =
       (None, (renamed nm)
          \<lparr>writes := [(stdout, ''[2015-06-01 12:00:00]['' @ name_segment quiet_env nm
                                 @ ''][SEVERE] *** x'' @ [LF])]\<rparr>)" for nm
    using dunder_write_sample_x [of "\<lambda>_ _. WriteReturns True" "renamed nm" 0 7 "Fin 2" "Fin 1"]
      returns_sample(1)
    by (simp add: run_task_def quiet_env_def renamed_sel svc_def level_segment_sample
        expected_writes_def accepting_def default_streams_eval)
  show ?thesis
    using g n q r [of "NameStr ''api''"] r [of NameNull]
    by (simp add: quiet_env_def name_segment_sample)
qed

end
